theory Spec2Isabelle
  imports Complex_Main "HOL-Library.Sublist"
begin

section \<open>Array elements: floating-point values under comparison\<close>

text \<open>
  The notebook (book/tutorials/DataProducts/DataProducts.ipynb) only ever compares
  array elements (\<^verbatim>\<open>>\<close>, \<^verbatim>\<open><\<close>, \<^verbatim>\<open>==\<close>) and overwrites them with
  \<^verbatim>\<open>np.NaN\<close>; it does no arithmetic on them in the cells modelled here. An element
  is therefore modelled by its value: a finite number (every float32/float64 is a real, and
  both zeros are kept apart), an infinity, or NaN. The reals that are not floats are extra
  values of the model; a statement proved for all of them holds for the floats among them.
  Arrays are modelled at a floating dtype (the only dtypes that hold NaN), flattened to the
  list of their elements in storage order: every operation below is element by element.
\<close>

datatype f64 = Fin real | NegZero | PosInf | NegInf | NaN

fun rank :: "f64 \<Rightarrow> int" where
  "rank NegInf = -1"
| "rank PosInf = 1"
| "rank _ = 0"

fun mag :: "f64 \<Rightarrow> real" where
  "mag (Fin r) = r"
| "mag _ = 0"

fun is_nan :: "f64 \<Rightarrow> bool" where
  "is_nan NaN = True"
| "is_nan _ = False"

text \<open>IEEE comparison: anything compared with NaN is false; \<open>-0.0 == 0.0\<close> is true.\<close>

definition flt :: "f64 \<Rightarrow> f64 \<Rightarrow> bool" where
  "flt a b = (\<not> is_nan a \<and> \<not> is_nan b \<and>
              (rank a < rank b \<or> (rank a = rank b \<and> mag a < mag b)))"

definition fgt :: "f64 \<Rightarrow> f64 \<Rightarrow> bool" where
  "fgt a b = flt b a"

definition feq :: "f64 \<Rightarrow> f64 \<Rightarrow> bool" where
  "feq a b = (\<not> is_nan a \<and> \<not> is_nan b \<and> rank a = rank b \<and> mag a = mag b)"

definition fge :: "f64 \<Rightarrow> f64 \<Rightarrow> bool" where
  "fge a b = (fgt a b \<or> feq a b)"

datatype py_error = AttributeError | IndexError | KeyError | NameError | ValueError

section \<open>Region-of-interest mask\<close>

text \<open>
  \<^verbatim>\<open>
  ind  = xyth['x'] > XR[0]
  ind &= xyth['x'] < XR[1]
  ind &= xyth['y'] > YR[0]
  ind &= xyth['y'] < YR[1]
  \<close>
  (and the same four lines on \<^verbatim>\<open>D6['x']\<close>, \<^verbatim>\<open>D6['y']\<close> for ATL06). \<^verbatim>\<open>XR\<close> and
  \<^verbatim>\<open>YR\<close> are two-element arrays, modelled as pairs: \<^verbatim>\<open>XR[0]\<close> is \<open>fst XR\<close>.
\<close>

definition gt_scalar :: "f64 list \<Rightarrow> f64 \<Rightarrow> bool list" where
  "gt_scalar a c = map (\<lambda>v. fgt v c) a"

definition lt_scalar :: "f64 list \<Rightarrow> f64 \<Rightarrow> bool list" where
  "lt_scalar a c = map (\<lambda>v. flt v c) a"

text \<open>
  In-place \<^verbatim>\<open>ind &= other\<close> on one-dimensional boolean arrays: \<open>other\<close> is broadcast
  to the shape of \<open>ind\<close>, which works when the lengths agree or \<open>other\<close> has one
  element; otherwise numpy raises ValueError.
\<close>

definition iand :: "bool list \<Rightarrow> bool list \<Rightarrow> py_error + bool list" where
  "iand ind other =
     (if length other = length ind then Inr (map2 (\<and>) ind other)
      else if length other = 1 then Inr (map (\<lambda>b. b \<and> hd other) ind)
      else Inl ValueError)"

definition region_mask ::
  "f64 \<times> f64 \<Rightarrow> f64 \<times> f64 \<Rightarrow> f64 list \<Rightarrow> f64 list \<Rightarrow> py_error + bool list" where
  "region_mask XR YR x y =
     (let ind = gt_scalar x (fst XR) in
      case iand ind (lt_scalar x (snd XR)) of Inl e \<Rightarrow> Inl e
      | Inr ind \<Rightarrow>
     (case iand ind (gt_scalar y (fst YR)) of Inl e \<Rightarrow> Inl e
      | Inr ind \<Rightarrow> iand ind (lt_scalar y (snd YR))))"

section \<open>Fill-value sanitization\<close>

text \<open>
  \<^verbatim>\<open>temp[temp==h5f['pt2/']['h_corr'].attrs['_FillValue']]=np.NaN\<close>:
  the comparison builds a boolean mask, the masked assignment overwrites the selected
  elements.
\<close>

definition eq_scalar :: "f64 list \<Rightarrow> f64 \<Rightarrow> bool list" where
  "eq_scalar a c = map (\<lambda>v. feq v c) a"

definition assign_masked :: "f64 list \<Rightarrow> bool list \<Rightarrow> f64 \<Rightarrow> f64 list" where
  "assign_masked a m v = map2 (\<lambda>old sel. if sel then v else old) a m"

definition sanitize :: "f64 \<Rightarrow> f64 list \<Rightarrow> f64 list" where
  "sanitize fill temp = assign_masked temp (eq_scalar temp fill) NaN"

section \<open>Regular expressions of the notebook\<close>

text \<open>
  The notebook compiles two patterns,
  \<^verbatim>\<open>ATL11_re=re.compile('ATL11_(\d\d\d\d)(\d\d)_')\<close> and
  \<^verbatim>\<open>ATL06_re=re.compile('ATL06_\d+_(\d\d\d\d)(\d\d)(\d\d)_')\<close>,
  and calls \<^verbatim>\<open>search\<close> and \<^verbatim>\<open>group\<close> on them. A pattern is a list of tokens: a
  literal character, \<^verbatim>\<open>\d\<close>, \<^verbatim>\<open>\d+\<close>, and the parentheses of a capture group
  (never nested in these patterns). Strings are lists of 8-bit characters; among those,
  \<^verbatim>\<open>\d\<close> matches exactly the ten ASCII digits.
\<close>

datatype tok = Lit char | Dig | DigPlus | Open | Close

definition is_digit :: "char \<Rightarrow> bool" where
  "is_digit c = (c \<in> set ''0123456789'')"

text \<open>
  A match in progress: the text consumed so far (\<^verbatim>\<open>group(0)\<close>), the groups already
  closed, and the text of the group that is open, if one is.
\<close>

record re_match =
  whole :: string
  groups :: "string list"
  cur :: "string option"

definition eat :: "char \<Rightarrow> re_match \<Rightarrow> re_match" where
  "eat c m = m\<lparr>whole := whole m @ [c], cur := map_option (\<lambda>g. g @ [c]) (cur m)\<rparr>"

text \<open>
  Matching at the start of a string, by backtracking: \<^verbatim>\<open>\d+\<close> is greedy, it first
  tries to take one more digit and gives the digit back only when the rest fails.
\<close>

fun rmatch :: "tok list \<Rightarrow> string \<Rightarrow> re_match \<Rightarrow> re_match option" where
  "rmatch [] s m = Some m"
| "rmatch (Open # ts) s m = rmatch ts s (m\<lparr>cur := Some []\<rparr>)"
| "rmatch (Close # ts) s m =
     rmatch ts s (m\<lparr>groups := groups m @ [case cur m of Some g \<Rightarrow> g | None \<Rightarrow> []], cur := None\<rparr>)"
| "rmatch (Lit c # ts) [] m = None"
| "rmatch (Lit c # ts) (a # s) m = (if a = c then rmatch ts s (eat a m) else None)"
| "rmatch (Dig # ts) [] m = None"
| "rmatch (Dig # ts) (a # s) m = (if is_digit a then rmatch ts s (eat a m) else None)"
| "rmatch (DigPlus # ts) [] m = None"
| "rmatch (DigPlus # ts) (a # s) m =
     (if is_digit a
      then (case rmatch (DigPlus # ts) s (eat a m) of
              Some r \<Rightarrow> Some r
            | None \<Rightarrow> rmatch ts s (eat a m))
      else None)"

definition m0 :: re_match where
  "m0 = \<lparr>whole = [], groups = [], cur = None\<rparr>"

text \<open>\<^verbatim>\<open>re.search\<close>: the match at the leftmost start position that has one, or None.\<close>

fun re_search :: "tok list \<Rightarrow> string \<Rightarrow> re_match option" where
  "re_search ts [] = rmatch ts [] m0"
| "re_search ts (a # s) =
     (case rmatch ts (a # s) m0 of Some m \<Rightarrow> Some m | None \<Rightarrow> re_search ts s)"

text \<open>\<^verbatim>\<open>m.group(n)\<close>: the whole match for 0, group n when there is one, else IndexError.\<close>

definition group :: "re_match \<Rightarrow> nat \<Rightarrow> py_error + string" where
  "group m n =
     (if n = 0 then Inr (whole m)
      else if n \<le> length (groups m) then Inr (groups m ! (n - 1))
      else Inl IndexError)"

definition ATL11_re :: "tok list" where
  "ATL11_re = map Lit ''ATL11_'' @
     [Open, Dig, Dig, Dig, Dig, Close, Open, Dig, Dig, Close, Lit CHR ''_'']"

definition ATL06_re :: "tok list" where
  "ATL06_re = map Lit ''ATL06_'' @
     [DigPlus, Lit CHR ''_'', Open, Dig, Dig, Dig, Dig, Close, Open, Dig, Dig, Close,
      Open, Dig, Dig, Close, Lit CHR ''_'']"

text \<open>
  \<^verbatim>\<open>RE.search(name).group(n)\<close>: \<^verbatim>\<open>search\<close> returns None when nothing matches, and
  \<^verbatim>\<open>None.group\<close> raises AttributeError.
\<close>

definition search_group :: "tok list \<Rightarrow> string \<Rightarrow> nat \<Rightarrow> py_error + string" where
  "search_group re s n =
     (case re_search re s of None \<Rightarrow> Inl AttributeError | Some m \<Rightarrow> group m n)"

section \<open>The download loops\<close>

text \<open>
  A granule record of the catalog: the fields the loops read. The set \<open>tmp\<close> holds the
  names \<open>n\<close> for which \<^verbatim>\<open>os.path.isfile('/tmp/'+n)\<close> is true. The shell commands
  \<^verbatim>\<open>wget\<close> and \<^verbatim>\<open>mv\<close> are outside the notebook: \<open>wget g\<close> says whether they
  leave the granule's file in \<^verbatim>\<open>/tmp\<close> under its \<^verbatim>\<open>producer_granule_id\<close>; a shell
  command that fails raises nothing in the notebook, and the two commands touch no other
  file of \<^verbatim>\<open>/tmp\<close>.

  What a loop leaves behind: the files in \<^verbatim>\<open>/tmp\<close>, the granules that reached
  \<^verbatim>\<open>print(this_name)\<close> and the download, in order, and the exception that ended the
  loop, if one did.
\<close>

record granule =
  producer_granule_id :: string
  href :: string

record dl_result =
  files :: "string set"
  fetched :: "granule list"
  raised :: "py_error option"

text \<open>
  \<^verbatim>\<open>
  for granule in region_a.granules.avail:
      this_name = granule['producer_granule_id']
      if os.path.isfile('/tmp/'+this_name):
          continue
      subregion = ATL11_re.search(this_name).group(2)
      if not subregion == '03':
          continue
      print(this_name)
      ! wget {granule['links'][0]['href']} -q
      ! mv {granule['producer_granule_id']} /tmp/
  \<close>
  One pass of the body either raises, before any effect, or ends with the new set of
  files and the granule it fetched, if it fetched one.
\<close>

definition ATL11_body ::
  "(granule \<Rightarrow> bool) \<Rightarrow> string set \<Rightarrow> granule \<Rightarrow> py_error + (string set \<times> granule list)" where
  "ATL11_body wget tmp g =
     (let this_name = producer_granule_id g in
      if this_name \<in> tmp then Inr (tmp, [])
      else case search_group ATL11_re this_name 2 of
             Inl e \<Rightarrow> Inl e
           | Inr subregion \<Rightarrow>
               if \<not> subregion = ''03'' then Inr (tmp, [])
               else Inr (if wget g then insert this_name tmp else tmp, [g]))"

fun ATL11_download :: "(granule \<Rightarrow> bool) \<Rightarrow> string set \<Rightarrow> granule list \<Rightarrow> dl_result" where
  "ATL11_download wget tmp [] = \<lparr>files = tmp, fetched = [], raised = None\<rparr>"
| "ATL11_download wget tmp (g # gs) =
     (case ATL11_body wget tmp g of
        Inl e \<Rightarrow> \<lparr>files = tmp, fetched = [], raised = Some e\<rparr>
      | Inr (tmp', sel) \<Rightarrow>
          (let r = ATL11_download wget tmp' gs in r\<lparr>fetched := sel @ fetched r\<rparr>))"

text \<open>
  \<^verbatim>\<open>
  for granule in region_b.granules.avail:
      this_name=granule['producer_granule_id']
      if not ATL06_re.search(this_name).group(3) == "03":
          continue
      if os.path.isfile('/tmp/'+this_name):
          continue
      print(this_name)
      ! wget -nc {granule['links'][0]['href']} -q
      ! mv {this_name} /tmp
  \<close>
\<close>

definition ATL06_body ::
  "(granule \<Rightarrow> bool) \<Rightarrow> string set \<Rightarrow> granule \<Rightarrow> py_error + (string set \<times> granule list)" where
  "ATL06_body wget tmp g =
     (let this_name = producer_granule_id g in
      case search_group ATL06_re this_name 3 of
        Inl e \<Rightarrow> Inl e
      | Inr subregion \<Rightarrow>
          if \<not> subregion = ''03'' then Inr (tmp, [])
          else if this_name \<in> tmp then Inr (tmp, [])
          else Inr (if wget g then insert this_name tmp else tmp, [g]))"

fun ATL06_download :: "(granule \<Rightarrow> bool) \<Rightarrow> string set \<Rightarrow> granule list \<Rightarrow> dl_result" where
  "ATL06_download wget tmp [] = \<lparr>files = tmp, fetched = [], raised = None\<rparr>"
| "ATL06_download wget tmp (g # gs) =
     (case ATL06_body wget tmp g of
        Inl e \<Rightarrow> \<lparr>files = tmp, fetched = [], raised = Some e\<rparr>
      | Inr (tmp', sel) \<Rightarrow>
          (let r = ATL06_download wget tmp' gs in r\<lparr>fetched := sel @ fetched r\<rparr>))"

text \<open>
  \<^verbatim>\<open>glob.glob('/tmp/ATL11*.h5')\<close>: the files of \<^verbatim>\<open>/tmp\<close> whose name starts with
  \<^verbatim>\<open>ATL11\<close> and, after these five characters, ends with \<^verbatim>\<open>.h5\<close>. The order of the
  result is not specified, so it is a set. (Only the regular files of \<^verbatim>\<open>/tmp\<close> are
  modelled.)
\<close>

definition glob_ATL11 :: "string set \<Rightarrow> string set" where
  "glob_ATL11 tmp =
     (\<lambda>n. ''/tmp/'' @ n) ` {n \<in> tmp. prefix ''ATL11'' n \<and> suffix ''.h5'' (drop 5 n)}"

section \<open>Reading the files\<close>

text \<open>
  An open HDF5 file, as far as the notebook reads it: groups by path, datasets by their
  path inside the group, and for a dataset its values and its attributes. A missing key
  raises KeyError at every level. \<^verbatim>\<open>h5f['pt2/']\<close> and \<^verbatim>\<open>h5f['pt2']\<close> name
  the same group.
\<close>

record dataset =
  data :: "f64 list"
  attrs :: "string \<rightharpoonup> f64"

type_synonym h5group = "string \<rightharpoonup> dataset"

type_synonym h5file = "string \<rightharpoonup> h5group"

definition h5get :: "h5file \<Rightarrow> string \<Rightarrow> string \<Rightarrow> py_error + dataset" where
  "h5get h5f grp field =
     (case h5f grp of None \<Rightarrow> Inl KeyError
      | Some G \<Rightarrow> (case G field of None \<Rightarrow> Inl KeyError | Some d \<Rightarrow> Inr d))"







text \<open>
  \<^verbatim>\<open>
  file_xyth={}
  for file in glob.glob('/tmp/ATL11*.h5'):
      with h5py.File(file,'r') as h5f:
          try:
              lat=np.array(h5f['pt2']['latitude'])
              lon=np.array(h5f['pt2']['longitude'])
          except Exception:
              pass
          x,y = to_xy_crs.transform(lat, lon)
          file_xyth[file]={'x':x,'y':y, 'h':np.array(h5f['pt2']['h_corr']), 't':np.array(h5f['pt2']['delta_time'])}
          temp=np.array(h5f['pt2']['h_corr'])
          temp[temp==h5f['pt2/']['h_corr'].attrs['_FillValue']]=np.NaN
          file_xyth[file]['h']=temp
  \<close>
  \<^verbatim>\<open>lat\<close> and \<^verbatim>\<open>lon\<close> are variables of the notebook that outlive a pass of the
  loop (no cell assigns them before this one: None is an unbound name, and reading it
  raises NameError). The coordinate transform \<^verbatim>\<open>to_xy_crs.transform\<close> belongs to
  pyproj: it is a parameter, and it may raise. An exception ends the loop and leaves the
  state as it is at that point.
\<close>

record xyth =
  xyth_x :: "f64 list"
  xyth_y :: "f64 list"
  xyth_h :: "f64 list"
  xyth_t :: "f64 list"

record rd_state =
  lat :: "f64 list option"
  lon :: "f64 list option"
  file_xyth :: "string \<rightharpoonup> xyth"

type_synonym transform = "f64 list \<Rightarrow> f64 list \<Rightarrow> py_error + (f64 list \<times> f64 list)"

definition read_latlon :: "rd_state \<Rightarrow> h5file \<Rightarrow> rd_state" where
  "read_latlon st h5f =
     (case h5get h5f ''pt2'' ''latitude'' of
        Inl e \<Rightarrow> st
      | Inr la \<Rightarrow>
          (case h5get h5f ''pt2'' ''longitude'' of
             Inl e \<Rightarrow> st\<lparr>lat := Some (data la)\<rparr>
           | Inr lo \<Rightarrow> st\<lparr>lat := Some (data la), lon := Some (data lo)\<rparr>))"

definition ATL11_read_file ::
  "transform \<Rightarrow> rd_state \<Rightarrow> string \<Rightarrow> h5file \<Rightarrow> rd_state \<times> py_error option" where
  "ATL11_read_file tr st file h5f =
     (let st1 = read_latlon st h5f in
      case lat st1 of None \<Rightarrow> (st1, Some NameError) | Some la \<Rightarrow>
      case lon st1 of None \<Rightarrow> (st1, Some NameError) | Some lo \<Rightarrow>
      case tr la lo of Inl e \<Rightarrow> (st1, Some e) | Inr (xs, ys) \<Rightarrow>
      case h5get h5f ''pt2'' ''h_corr'' of Inl e \<Rightarrow> (st1, Some e) | Inr hc \<Rightarrow>
      case h5get h5f ''pt2'' ''delta_time'' of Inl e \<Rightarrow> (st1, Some e) | Inr dt \<Rightarrow>
        (let rec = \<lparr>xyth_x = xs, xyth_y = ys, xyth_h = data hc, xyth_t = data dt\<rparr>;
             st2 = st1\<lparr>file_xyth := (file_xyth st1)(file \<mapsto> rec)\<rparr>;
             temp = data hc
         in case attrs hc ''_FillValue'' of
              None \<Rightarrow> (st2, Some KeyError)
            | Some fv \<Rightarrow>
                (st2\<lparr>file_xyth := (file_xyth st2)(file \<mapsto> rec\<lparr>xyth_h := sanitize fv temp\<rparr>)\<rparr>,
                 None)))"

fun ATL11_read ::
  "transform \<Rightarrow> rd_state \<Rightarrow> (string \<times> h5file) list \<Rightarrow> rd_state \<times> py_error option" where
  "ATL11_read tr st [] = (st, None)"
| "ATL11_read tr st ((file, h5f) # rest) =
     (case ATL11_read_file tr st file h5f of
        (st', Some e) \<Rightarrow> (st', Some e)
      | (st', None) \<Rightarrow> ATL11_read tr st' rest)"

section \<open>Example inputs\<close>

text \<open>
  Inputs for the concrete instances further down: a download that always succeeds, and
  granule records named after the notebook's own file
  \<^verbatim>\<open>ATL11_054803_0311_004_01.h5\<close> (subregion 03), two of subregion 04, and one whose
  name does not follow the pattern (the subregion digits are missing).
\<close>

definition wget_ok :: "granule \<Rightarrow> bool" where
  "wget_ok g = True"

abbreviation ex03 :: granule where
  "ex03 \<equiv> \<lparr>producer_granule_id = ''ATL11_054803_0311_004_01.h5'',
            href = ''https://data.example/ATL11_054803_0311_004_01.h5''\<rparr>"

abbreviation ex04 :: granule where
  "ex04 \<equiv> \<lparr>producer_granule_id = ''ATL11_054804_0311_004_01.h5'',
            href = ''https://data.example/ATL11_054804_0311_004_01.h5''\<rparr>"

abbreviation ex04b :: granule where
  "ex04b \<equiv> \<lparr>producer_granule_id = ''ATL11_062404_0311_004_01.h5'',
            href = ''https://data.example/ATL11_062404_0311_004_01.h5''\<rparr>"

abbreviation exbad :: granule where
  "exbad \<equiv> \<lparr>producer_granule_id = ''ATL11_0548_0311_004_01.h5'',
            href = ''https://data.example/ATL11_0548_0311_004_01.h5''\<rparr>"

text \<open>
  For the reading loops: a stand-in for the coordinate transform (the instances do not
  depend on what it computes), the float32 fill value of the height fields, and small
  files: an ATL06 file in which only \<^verbatim>\<open>h_li\<close> and \<^verbatim>\<open>x_atc\<close> carry a
  \<^verbatim>\<open>_FillValue\<close>, a complete ATL11 file, and an ATL11 file that has heights and times
  but no latitude and longitude.
\<close>

definition tr_stub :: transform where
  "tr_stub la lo = Inr (lo, la)"

abbreviation fill32 :: f64 where
  "fill32 \<equiv> Fin 340282346638528859811704183484516925440"


abbreviation ex_ATL11 :: h5file where
  "ex_ATL11 \<equiv>
     [''pt2'' \<mapsto>
        [''latitude'' \<mapsto> \<lparr>data = [Fin 79, Fin 80], attrs = Map.empty\<rparr>,
         ''longitude'' \<mapsto> \<lparr>data = [Fin (- 48), Fin (- 47)], attrs = Map.empty\<rparr>,
         ''h_corr'' \<mapsto> \<lparr>data = [Fin 1200, fill32], attrs = [''_FillValue'' \<mapsto> fill32]\<rparr>,
         ''delta_time'' \<mapsto> \<lparr>data = [Fin 100, Fin 200], attrs = Map.empty\<rparr>]]"

abbreviation ex_ATL11_nopos :: h5file where
  "ex_ATL11_nopos \<equiv>
     [''pt2'' \<mapsto>
        [''h_corr'' \<mapsto> \<lparr>data = [fill32, Fin 1300, Fin 1310], attrs = [''_FillValue'' \<mapsto> fill32]\<rparr>,
         ''delta_time'' \<mapsto> \<lparr>data = [Fin 300, Fin 400, Fin 500], attrs = Map.empty\<rparr>]]"

abbreviation st_fresh :: rd_state where
  "st_fresh \<equiv> \<lparr>lat = None, lon = None, file_xyth = Map.empty\<rparr>"

section \<open>Properties of the comparisons\<close>

lemma flt_Fin [simp]: "flt (Fin a) (Fin b) = (a < b)"
  by (simp add: flt_def)

lemma flt_irrefl: "\<not> flt a a"
  by (simp add: flt_def)

lemma flt_trans: "flt a b \<Longrightarrow> flt b c \<Longrightarrow> flt a c"
  by (auto simp: flt_def)

lemma flt_fge_absurd: "flt a b \<Longrightarrow> fge a b \<Longrightarrow> False"
  by (auto simp: flt_def fge_def fgt_def feq_def)

lemma region_mask_eq:
  assumes "length x = length y"
  shows "region_mask XR YR x y =
           Inr (map2 (\<lambda>u v. flt (fst XR) u \<and> flt u (snd XR) \<and> flt (fst YR) v \<and> flt v (snd YR)) x y)"
  using assms
  by (auto simp: region_mask_def iand_def gt_scalar_def lt_scalar_def fgt_def Let_def
                 list_eq_iff_nth_eq)

lemma sanitize_eq: "sanitize fill temp = map (\<lambda>v. if feq v fill then NaN else v) temp"
  by (simp add: sanitize_def assign_masked_def eq_scalar_def list_eq_iff_nth_eq)

section \<open>Properties of the patterns\<close>

lemma groups_eat [simp]: "groups (eat c m) = groups m"
  by (simp add: eat_def)

lemma rmatch_groups_length:
  "rmatch ts s m = Some r \<Longrightarrow>
   length (groups r) = length (groups m) + length (filter (\<lambda>t. t = Close) ts)"
  by (induction ts s m rule: rmatch.induct) (auto split: if_splits option.splits)

lemma re_search_groups_length:
  "re_search ts s = Some r \<Longrightarrow> length (groups r) = length (filter (\<lambda>t. t = Close) ts)"
  by (induction s) (auto simp: m0_def dest: rmatch_groups_length split: option.splits)

lemma ATL11_search_group_2:
  "re_search ATL11_re n = Some r \<Longrightarrow> search_group ATL11_re n 2 = Inr (groups r ! 1)"
  using re_search_groups_length [of ATL11_re n r]
  by (simp add: search_group_def group_def ATL11_re_def)

lemma ATL06_search_group_3:
  "re_search ATL06_re n = Some r \<Longrightarrow> search_group ATL06_re n 3 = Inr (groups r ! 2)"
  using re_search_groups_length [of ATL06_re n r]
  by (simp add: search_group_def group_def ATL06_re_def)

lemma eat_lit:
  "eat c \<lparr>whole = w, groups = gs, cur = k\<rparr> =
     \<lparr>whole = w @ [c], groups = gs, cur = map_option (\<lambda>g. g @ [c]) k\<rparr>"
  by (simp add: eat_def)

lemma eats_no_group:
  "foldl (\<lambda>m c. eat c m) \<lparr>whole = w, groups = gs, cur = None\<rparr> ds =
     \<lparr>whole = w @ ds, groups = gs, cur = None\<rparr>"
  by (induction ds arbitrary: w) (simp_all add: eat_lit)

lemma not_digit_underscore [simp]: "\<not> is_digit CHR ''_''"
  by (simp add: is_digit_def)

lemma rmatch_DigPlus_run:
  assumes "ds \<noteq> []" and "\<forall>ch \<in> set ds. is_digit ch"
  shows "rmatch (DigPlus # Lit CHR ''_'' # ts) (ds @ CHR ''_'' # s) m =
         rmatch ts s (eat CHR ''_'' (foldl (\<lambda>m c. eat c m) m ds))"
  using assms
proof (induction ds arbitrary: m)
  case Nil
  then show ?case by simp
next
  case (Cons d ds)
  show ?case
  proof (cases ds)
    case Nil
    with Cons.prems show ?thesis by simp
  next
    case (Cons d' ds')
    with Cons.prems have nd: "d' \<noteq> CHR ''_''" by auto
    from Cons Cons.prems Cons.IH [of "eat d m"] nd show ?thesis
      by (auto split: option.splits)
  qed
qed

lemma length_4_conv: "length t = 4 \<Longrightarrow> \<exists>a b c d. t = [a, b, c, d]"
  by (auto simp: numeral_eq_Suc length_Suc_conv)

lemma length_2_conv: "length t = 2 \<Longrightarrow> \<exists>a b. t = [a, b]"
  by (auto simp: numeral_eq_Suc length_Suc_conv)

lemma ATL11_search_wellformed:
  assumes "length t = 4" and "length r = 2" and "\<forall>ch \<in> set (t @ r). is_digit ch"
  shows "re_search ATL11_re (''ATL11_'' @ t @ r @ ''_'' @ rest) =
           Some \<lparr>whole = ''ATL11_'' @ t @ r @ ''_'', groups = [t, r], cur = None\<rparr>"
proof -
  from length_4_conv [OF assms(1)] obtain a b c d where t: "t = [a, b, c, d]" by blast
  from length_2_conv [OF assms(2)] obtain e f where r: "r = [e, f]" by blast
  from assms(3) show ?thesis
    unfolding t r by (simp add: ATL11_re_def m0_def eat_lit)
qed

lemma ATL06_search_wellformed:
  assumes "ds \<noteq> []" and "length t = 4" and "length c = 2" and "length r = 2"
    and "\<forall>ch \<in> set (ds @ t @ c @ r). is_digit ch"
  shows "re_search ATL06_re (''ATL06_'' @ ds @ ''_'' @ t @ c @ r @ ''_'' @ rest) =
           Some \<lparr>whole = ''ATL06_'' @ ds @ ''_'' @ t @ c @ r @ ''_'', groups = [t, c, r], cur = None\<rparr>"
proof -
  from length_4_conv [OF assms(2)] obtain t1 t2 t3 t4 where t: "t = [t1, t2, t3, t4]" by blast
  from length_2_conv [OF assms(3)] obtain c1 c2 where c: "c = [c1, c2]" by blast
  from length_2_conv [OF assms(4)] obtain r1 r2 where r: "r = [r1, r2]" by blast
  from assms(5) have dd: "\<forall>ch \<in> set ds. is_digit ch" by simp
  from assms(5) show ?thesis
    unfolding t c r
    by (simp add: ATL06_re_def m0_def rmatch_DigPlus_run [OF assms(1) dd] eats_no_group eat_lit)
qed

text \<open>
  What the two patterns accept, in the words of the naming scheme: \<^verbatim>\<open>search\<close> finds
  nothing exactly when the name has no occurrence of \<^verbatim>\<open>ATL11_\<close>, four digits, two
  digits and an underscore (for ATL06: \<^verbatim>\<open>ATL06_\<close>, a run of digits, an underscore,
  eight digits and an underscore).
\<close>

lemma rmatch_Lit_Some:
  "rmatch (Lit c # ts) s m = Some r \<longleftrightarrow> (\<exists>s'. s = c # s' \<and> rmatch ts s' (eat c m) = Some r)"
  by (cases s) auto

lemma rmatch_Dig_Some:
  "rmatch (Dig # ts) s m = Some r \<longleftrightarrow>
     (\<exists>a s'. s = a # s' \<and> is_digit a \<and> rmatch ts s' (eat a m) = Some r)"
  by (cases s) auto

lemma re_search_Some_iff:
  "(\<exists>r. re_search ts s = Some r) \<longleftrightarrow> (\<exists>p w r. s = p @ w \<and> rmatch ts w m0 = Some r)"
proof (induction s)
  case Nil
  show ?case by simp
next
  case (Cons a s)
  show ?case
  proof (cases "rmatch ts (a # s) m0")
    case (Some r)
    then have "a # s = [] @ (a # s) \<and> rmatch ts (a # s) m0 = Some r" by simp
    then have "\<exists>p w r. a # s = p @ w \<and> rmatch ts w m0 = Some r" by blast
    with Some show ?thesis by simp
  next
    case None
    have "(\<exists>p w r. a # s = p @ w \<and> rmatch ts w m0 = Some r) \<longleftrightarrow>
          (\<exists>p w r. s = p @ w \<and> rmatch ts w m0 = Some r)"
    proof
      assume "\<exists>p w r. a # s = p @ w \<and> rmatch ts w m0 = Some r"
      then obtain p w r where e: "a # s = p @ w" and m: "rmatch ts w m0 = Some r" by blast
      show "\<exists>p w r. s = p @ w \<and> rmatch ts w m0 = Some r"
      proof (cases p)
        case Nil
        with e m None show ?thesis by simp
      next
        case (Cons b p')
        with e have "s = p' @ w" by simp
        with m show ?thesis by blast
      qed
    next
      assume "\<exists>p w r. s = p @ w \<and> rmatch ts w m0 = Some r"
      then obtain p w r where "s = p @ w" and m: "rmatch ts w m0 = Some r" by blast
      then have "a # s = (a # p) @ w" by simp
      with m show "\<exists>p w r. a # s = p @ w \<and> rmatch ts w m0 = Some r" by blast
    qed
    with None Cons.IH show ?thesis by simp
  qed
qed

lemma rmatch_ATL11_iff:
  "(\<exists>r. rmatch ATL11_re w m0 = Some r) \<longleftrightarrow>
   (\<exists>t r rest. w = ''ATL11_'' @ t @ r @ ''_'' @ rest \<and> length t = 4 \<and> length r = 2 \<and>
                 (\<forall>ch \<in> set (t @ r). is_digit ch))"
proof
  assume "\<exists>r. rmatch ATL11_re w m0 = Some r"
  then obtain a b c d e f rest where
    w: "w = ''ATL11_'' @ [a, b, c, d] @ [e, f] @ ''_'' @ rest" and
    dg: "is_digit a" "is_digit b" "is_digit c" "is_digit d" "is_digit e" "is_digit f"
    by (auto simp: ATL11_re_def rmatch_Lit_Some rmatch_Dig_Some)
  have "length [a, b, c, d] = 4 \<and> length [e, f] = 2 \<and>
        (\<forall>ch \<in> set ([a, b, c, d] @ [e, f]). is_digit ch)"
    using dg by simp
  with w show "\<exists>t r rest. w = ''ATL11_'' @ t @ r @ ''_'' @ rest \<and> length t = 4 \<and> length r = 2 \<and>
                 (\<forall>ch \<in> set (t @ r). is_digit ch)"
    by blast
next
  assume "\<exists>t r rest. w = ''ATL11_'' @ t @ r @ ''_'' @ rest \<and> length t = 4 \<and> length r = 2 \<and>
                 (\<forall>ch \<in> set (t @ r). is_digit ch)"
  then obtain t r rest where w: "w = ''ATL11_'' @ t @ r @ ''_'' @ rest"
    and l: "length t = 4" "length r = 2" and d: "\<forall>ch \<in> set (t @ r). is_digit ch"
    by blast
  from length_4_conv [OF l(1)] obtain a b c d where t: "t = [a, b, c, d]" by blast
  from length_2_conv [OF l(2)] obtain e f where r: "r = [e, f]" by blast
  from d show "\<exists>r. rmatch ATL11_re w m0 = Some r"
    unfolding w t r by (simp add: ATL11_re_def)
qed

lemma ATL11_search_None_iff:
  "re_search ATL11_re s = None \<longleftrightarrow>
   \<not> (\<exists>p t r rest. s = p @ ''ATL11_'' @ t @ r @ ''_'' @ rest \<and> length t = 4 \<and> length r = 2 \<and>
                     (\<forall>ch \<in> set (t @ r). is_digit ch))"
proof -
  have "re_search ATL11_re s = None \<longleftrightarrow> \<not> (\<exists>r. re_search ATL11_re s = Some r)"
    by auto
  also have "\<dots> \<longleftrightarrow> \<not> (\<exists>p w. s = p @ w \<and> (\<exists>r. rmatch ATL11_re w m0 = Some r))"
    unfolding re_search_Some_iff by blast
  also have "\<dots> \<longleftrightarrow> \<not> (\<exists>p t r rest. s = p @ ''ATL11_'' @ t @ r @ ''_'' @ rest \<and>
                     length t = 4 \<and> length r = 2 \<and> (\<forall>ch \<in> set (t @ r). is_digit ch))"
    unfolding rmatch_ATL11_iff by blast
  finally show ?thesis .
qed

lemma rmatch_DigPlus_Some:
  "rmatch (DigPlus # ts) s m = Some r \<Longrightarrow>
   \<exists>ds s'. ds \<noteq> [] \<and> (\<forall>ch \<in> set ds. is_digit ch) \<and> s = ds @ s' \<and>
            rmatch ts s' (foldl (\<lambda>m c. eat c m) m ds) = Some r"
proof (induction s arbitrary: m)
  case Nil
  then show ?case by simp
next
  case (Cons a s)
  from Cons.prems have da: "is_digit a" by (simp split: if_splits)
  show ?case
  proof (cases "rmatch (DigPlus # ts) s (eat a m)")
    case (Some r')
    with Cons.prems da have "r' = r" by simp
    with Some Cons.IH [of "eat a m"] obtain ds s' where
      "ds \<noteq> []" "\<forall>ch \<in> set ds. is_digit ch" "s = ds @ s'"
      "rmatch ts s' (foldl (\<lambda>m c. eat c m) (eat a m) ds) = Some r"
      by blast
    with da have "a # ds \<noteq> [] \<and> (\<forall>ch \<in> set (a # ds). is_digit ch) \<and> a # s = (a # ds) @ s' \<and>
        rmatch ts s' (foldl (\<lambda>m c. eat c m) m (a # ds)) = Some r"
      by simp
    then show ?thesis by blast
  next
    case None
    with Cons.prems da have "rmatch ts s (eat a m) = Some r" by simp
    with da have "[a] \<noteq> [] \<and> (\<forall>ch \<in> set [a]. is_digit ch) \<and> a # s = [a] @ s \<and>
        rmatch ts s (foldl (\<lambda>m c. eat c m) m [a]) = Some r"
      by simp
    then show ?thesis by blast
  qed
qed

lemma rmatch_ATL06_iff:
  "(\<exists>r. rmatch ATL06_re w m0 = Some r) \<longleftrightarrow>
   (\<exists>ds t c r rest. w = ''ATL06_'' @ ds @ ''_'' @ t @ c @ r @ ''_'' @ rest \<and> ds \<noteq> [] \<and>
        length t = 4 \<and> length c = 2 \<and> length r = 2 \<and>
        (\<forall>ch \<in> set (ds @ t @ c @ r). is_digit ch))"
proof
  assume "\<exists>r. rmatch ATL06_re w m0 = Some r"
  then obtain r0 w1 where w1: "w = ''ATL06_'' @ w1"
    and m1: "rmatch (DigPlus # Lit CHR ''_'' # [Open, Dig, Dig, Dig, Dig, Close, Open, Dig, Dig, Close,
      Open, Dig, Dig, Close, Lit CHR ''_'']) w1 (foldl (\<lambda>m c. eat c m) m0 ''ATL06_'') = Some r0"
    by (auto simp: ATL06_re_def rmatch_Lit_Some)
  from rmatch_DigPlus_Some [OF m1] obtain ds w2 where
    ds: "ds \<noteq> []" "\<forall>ch \<in> set ds. is_digit ch" and w2: "w1 = ds @ w2"
    and m2: "rmatch (Lit CHR ''_'' # [Open, Dig, Dig, Dig, Dig, Close, Open, Dig, Dig, Close,
      Open, Dig, Dig, Close, Lit CHR ''_'']) w2
        (foldl (\<lambda>m c. eat c m) (foldl (\<lambda>m c. eat c m) m0 ''ATL06_'') ds) = Some r0"
    by blast
  from m2 obtain a b c d e f g h rest where
    w3: "w2 = ''_'' @ [a, b, c, d] @ [e, f] @ [g, h] @ ''_'' @ rest" and
    dg: "is_digit a" "is_digit b" "is_digit c" "is_digit d" "is_digit e" "is_digit f"
        "is_digit g" "is_digit h"
    by (auto simp: rmatch_Lit_Some rmatch_Dig_Some)
  have "w = ''ATL06_'' @ ds @ ''_'' @ [a, b, c, d] @ [e, f] @ [g, h] @ ''_'' @ rest \<and> ds \<noteq> [] \<and>
        length [a, b, c, d] = 4 \<and> length [e, f] = 2 \<and> length [g, h] = 2 \<and>
        (\<forall>ch \<in> set (ds @ [a, b, c, d] @ [e, f] @ [g, h]). is_digit ch)"
    using w1 w2 w3 ds dg by auto
  then show "\<exists>ds t c r rest. w = ''ATL06_'' @ ds @ ''_'' @ t @ c @ r @ ''_'' @ rest \<and> ds \<noteq> [] \<and>
        length t = 4 \<and> length c = 2 \<and> length r = 2 \<and>
        (\<forall>ch \<in> set (ds @ t @ c @ r). is_digit ch)"
    by blast
next
  assume "\<exists>ds t c r rest. w = ''ATL06_'' @ ds @ ''_'' @ t @ c @ r @ ''_'' @ rest \<and> ds \<noteq> [] \<and>
        length t = 4 \<and> length c = 2 \<and> length r = 2 \<and>
        (\<forall>ch \<in> set (ds @ t @ c @ r). is_digit ch)"
  then obtain ds t c r rest where w: "w = ''ATL06_'' @ ds @ ''_'' @ t @ c @ r @ ''_'' @ rest"
    and n: "ds \<noteq> []" and l: "length t = 4" "length c = 2" "length r = 2"
    and d: "\<forall>ch \<in> set (ds @ t @ c @ r). is_digit ch"
    by blast
  from length_4_conv [OF l(1)] obtain t1 t2 t3 t4 where t: "t = [t1, t2, t3, t4]" by blast
  from length_2_conv [OF l(2)] obtain c1 c2 where c: "c = [c1, c2]" by blast
  from length_2_conv [OF l(3)] obtain r1 r2 where r: "r = [r1, r2]" by blast
  from d have dd: "\<forall>ch \<in> set ds. is_digit ch" by simp
  from d show "\<exists>r. rmatch ATL06_re w m0 = Some r"
    unfolding w t c r
    by (simp add: ATL06_re_def m0_def rmatch_DigPlus_run [OF n dd] eats_no_group eat_lit)
qed

lemma ATL06_search_None_iff:
  "re_search ATL06_re s = None \<longleftrightarrow>
   \<not> (\<exists>p ds t c r rest. s = p @ ''ATL06_'' @ ds @ ''_'' @ t @ c @ r @ ''_'' @ rest \<and> ds \<noteq> [] \<and>
        length t = 4 \<and> length c = 2 \<and> length r = 2 \<and>
        (\<forall>ch \<in> set (ds @ t @ c @ r). is_digit ch))"
proof -
  have "re_search ATL06_re s = None \<longleftrightarrow> \<not> (\<exists>r. re_search ATL06_re s = Some r)"
    by auto
  also have "\<dots> \<longleftrightarrow> \<not> (\<exists>p w. s = p @ w \<and> (\<exists>r. rmatch ATL06_re w m0 = Some r))"
    unfolding re_search_Some_iff by blast
  also have "\<dots> \<longleftrightarrow> \<not> (\<exists>p ds t c r rest. s = p @ ''ATL06_'' @ ds @ ''_'' @ t @ c @ r @ ''_'' @ rest \<and>
        ds \<noteq> [] \<and> length t = 4 \<and> length c = 2 \<and> length r = 2 \<and>
        (\<forall>ch \<in> set (ds @ t @ c @ r). is_digit ch))"
    unfolding rmatch_ATL06_iff by blast
  finally show ?thesis .
qed

section \<open>Properties of the loops\<close>



lemma ATL11_download_files_mono: "tmp \<subseteq> files (ATL11_download wget tmp gs)"
proof (induction gs arbitrary: tmp)
  case Nil
  show ?case by simp
next
  case (Cons g gs)
  show ?case
  proof (cases "ATL11_body wget tmp g")
    case (Inl e)
    then show ?thesis by simp
  next
    case (Inr p)
    obtain tmp' sel where p: "p = (tmp', sel)" by (cases p)
    from Inr p have "tmp \<subseteq> tmp'"
      by (auto simp: ATL11_body_def Let_def split: if_splits sum.splits)
    with Cons.IH [of tmp'] Inr p show ?thesis
      by (auto simp: Let_def)
  qed
qed

lemma ATL11_body_cases:
  "ATL11_body wget tmp g = Inr (tmp', sel) \<Longrightarrow>
     (sel = [] \<and> tmp' = tmp) \<or>
     (sel = [g] \<and> producer_granule_id g \<notin> tmp \<and>
      search_group ATL11_re (producer_granule_id g) 2 = Inr ''03'' \<and>
      tmp' = (if wget g then insert (producer_granule_id g) tmp else tmp))"
  by (auto simp: ATL11_body_def Let_def split: if_splits sum.splits)

lemma ATL11_download_idem:
  "ATL11_download wget tmp (fetched (ATL11_download wget tmp gs)) =
     (ATL11_download wget tmp gs)\<lparr>raised := None\<rparr>"
proof (induction gs arbitrary: tmp)
  case Nil
  show ?case by simp
next
  case (Cons g gs)
  show ?case
  proof (cases "ATL11_body wget tmp g")
    case (Inl e)
    then show ?thesis by simp
  next
    case (Inr p)
    obtain tmp' sel where p: "p = (tmp', sel)" by (cases p)
    from ATL11_body_cases [OF Inr [unfolded p]] show ?thesis
    proof
      assume "sel = [] \<and> tmp' = tmp"
      with Inr p Cons.IH [of tmp] show ?thesis by (simp add: Let_def)
    next
      assume a: "sel = [g] \<and> producer_granule_id g \<notin> tmp \<and>
        search_group ATL11_re (producer_granule_id g) 2 = Inr ''03'' \<and>
        tmp' = (if wget g then insert (producer_granule_id g) tmp else tmp)"
      with Inr p Cons.IH [of tmp'] show ?thesis by (simp add: Let_def)
    qed
  qed
qed

lemma ATL11_download_subseq: "subseq (fetched (ATL11_download wget tmp gs)) gs"
proof (induction gs arbitrary: tmp)
  case Nil
  show ?case by simp
next
  case (Cons g gs)
  show ?case
  proof (cases "ATL11_body wget tmp g")
    case (Inl e)
    then show ?thesis by simp
  next
    case (Inr p)
    obtain tmp' sel where p: "p = (tmp', sel)" by (cases p)
    from ATL11_body_cases [OF Inr [unfolded p]] Inr p Cons.IH [of tmp'] show ?thesis
      by (auto simp: Let_def)
  qed
qed

lemma ATL11_body_matched:
  "re_search ATL11_re (producer_granule_id g) \<noteq> None \<Longrightarrow> \<exists>p. ATL11_body wget tmp g = Inr p"
  by (auto simp: ATL11_body_def Let_def ATL11_search_group_2)

lemma ATL11_download_no_raise:
  "\<forall>g \<in> set gs. re_search ATL11_re (producer_granule_id g) \<noteq> None \<Longrightarrow>
   raised (ATL11_download wget tmp gs) = None"
proof (induction gs arbitrary: tmp)
  case Nil
  show ?case by simp
next
  case (Cons g gs)
  from Cons.prems ATL11_body_matched [of g wget tmp]
  obtain tmp' sel where "ATL11_body wget tmp g = Inr (tmp', sel)" by auto
  with Cons.IH [of tmp'] Cons.prems show ?case by (simp add: Let_def)
qed

lemma ATL11_fetched_absent_03:
  "f \<in> set (fetched (ATL11_download wget tmp gs)) \<Longrightarrow>
   producer_granule_id f \<notin> tmp \<and> search_group ATL11_re (producer_granule_id f) 2 = Inr ''03''"
proof (induction gs arbitrary: tmp)
  case Nil
  then show ?case by simp
next
  case (Cons g gs)
  show ?case
  proof (cases "ATL11_body wget tmp g")
    case (Inl e)
    with Cons.prems show ?thesis by simp
  next
    case (Inr p)
    obtain tmp' sel where p: "p = (tmp', sel)" by (cases p)
    from ATL11_body_cases [OF Inr [unfolded p]] show ?thesis
    proof
      assume "sel = [] \<and> tmp' = tmp"
      with Inr p Cons.prems Cons.IH [of tmp] show ?thesis by (simp add: Let_def)
    next
      assume a: "sel = [g] \<and> producer_granule_id g \<notin> tmp \<and>
        search_group ATL11_re (producer_granule_id g) 2 = Inr ''03'' \<and>
        tmp' = (if wget g then insert (producer_granule_id g) tmp else tmp)"
      with Inr p Cons.prems have "f = g \<or> f \<in> set (fetched (ATL11_download wget tmp' gs))"
        by (simp add: Let_def)
      then show ?thesis
      proof
        assume "f = g" with a show ?thesis by simp
      next
        assume "f \<in> set (fetched (ATL11_download wget tmp' gs))"
        from Cons.IH [OF this] a show ?thesis by (auto split: if_splits)
      qed
    qed
  qed
qed

lemma ATL11_download_append:
  "ATL11_download wget tmp (xs @ ys) =
     (let r = ATL11_download wget tmp xs in
      if raised r \<noteq> None then r
      else (let r' = ATL11_download wget (files r) ys in r'\<lparr>fetched := fetched r @ fetched r'\<rparr>))"
proof (induction xs arbitrary: tmp)
  case Nil
  show ?case by simp
next
  case (Cons g xs)
  show ?case
  proof (cases "ATL11_body wget tmp g")
    case (Inl e)
    then show ?thesis by simp
  next
    case (Inr p)
    obtain tmp' sel where p: "p = (tmp', sel)" by (cases p)
    with Inr Cons.IH [of tmp'] show ?thesis by (simp add: Let_def)
  qed
qed

lemma ATL06_download_append:
  "ATL06_download wget tmp (xs @ ys) =
     (let r = ATL06_download wget tmp xs in
      if raised r \<noteq> None then r
      else (let r' = ATL06_download wget (files r) ys in r'\<lparr>fetched := fetched r @ fetched r'\<rparr>))"
proof (induction xs arbitrary: tmp)
  case Nil
  show ?case by simp
next
  case (Cons g xs)
  show ?case
  proof (cases "ATL06_body wget tmp g")
    case (Inl e)
    then show ?thesis by simp
  next
    case (Inr p)
    obtain tmp' sel where p: "p = (tmp', sel)" by (cases p)
    with Inr Cons.IH [of tmp'] show ?thesis by (simp add: Let_def)
  qed
qed

lemma read_latlon_no_latitude:
  "h5get h5f ''pt2'' ''latitude'' = Inl e \<Longrightarrow> read_latlon st h5f = st"
  by (simp add: read_latlon_def)

lemma read_latlon_complete:
  "h5get h5f ''pt2'' ''latitude'' = Inr la \<Longrightarrow> h5get h5f ''pt2'' ''longitude'' = Inr lo \<Longrightarrow>
   read_latlon st h5f = st\<lparr>lat := Some (data la), lon := Some (data lo)\<rparr>"
  by (simp add: read_latlon_def)

lemma ATL11_read_file_stale:
  assumes "h5get h5f ''pt2'' ''latitude'' = Inl e"
    and "h5get h5f ''pt2'' ''h_corr'' = Inr hc" and "attrs hc ''_FillValue'' = Some fv"
    and "h5get h5f ''pt2'' ''delta_time'' = Inr dt"
    and "lat st = Some la" and "lon st = Some lo" and "tr la lo = Inr (xs, ys)"
  shows "ATL11_read_file tr st file h5f =
           (st\<lparr>file_xyth := (file_xyth st)(file \<mapsto>
                 \<lparr>xyth_x = xs, xyth_y = ys, xyth_h = sanitize fv (data hc), xyth_t = data dt\<rparr>)\<rparr>,
            None)"
  using assms by (simp add: ATL11_read_file_def read_latlon_no_latitude Let_def)

lemma ATL11_read_file_complete:
  assumes "h5get h5f ''pt2'' ''latitude'' = Inr dla" and "h5get h5f ''pt2'' ''longitude'' = Inr dlo"
    and "h5get h5f ''pt2'' ''h_corr'' = Inr hc" and "attrs hc ''_FillValue'' = Some fv"
    and "h5get h5f ''pt2'' ''delta_time'' = Inr dt"
    and "tr (data dla) (data dlo) = Inr (xs, ys)"
  shows "ATL11_read_file tr st file h5f =
           (st\<lparr>lat := Some (data dla), lon := Some (data dlo),
               file_xyth := (file_xyth st)(file \<mapsto>
                 \<lparr>xyth_x = xs, xyth_y = ys, xyth_h = sanitize fv (data hc), xyth_t = data dt\<rparr>)\<rparr>,
            None)"
  using assms by (simp add: ATL11_read_file_def read_latlon_complete Let_def)

lemma ATL11_read_file_no_group:
  "h5f ''pt2'' = None \<Longrightarrow>
   snd (ATL11_read_file tr st file h5f) \<noteq> None \<and>
   file_xyth (fst (ATL11_read_file tr st file h5f)) = file_xyth st"
  by (auto simp: ATL11_read_file_def read_latlon_def h5get_def Let_def split: option.splits sum.splits)

lemmas ATL11_run_simps = ATL11_body_def search_group_def group_def ATL11_re_def
  m0_def eat_lit is_digit_def Let_def wget_ok_def

section \<open>Claims about the region mask\<close>

text \<open>
  Claim C1. For every rectangle and every pair of coordinate arrays of equal length, the
  mask is computed without error, has the length of the arrays, and is true at position
  \<open>i\<close> exactly when \<open>xmin < x[i] < xmax\<close> and \<open>ymin < y[i] < ymax\<close>, all four
  comparisons strict (on finite values \<open>flt\<close> is \<open><\<close> on the reals, lemma
  \<open>flt_Fin\<close>). The instance below is the spec's own: the point with
  \<open>x = 1.015e6 = xmin\<close> is left out, the point with \<open>x = 1.02e6\<close> is selected.
\<close>

theorem region_mask_strictly_inside:
  assumes "length x = length y"
  shows "\<exists>ind. region_mask (xmin, xmax) (ymin, ymax) x y = Inr ind \<and>
           length ind = length x \<and>
           (\<forall>i<length x. ind ! i =
              (flt xmin (x ! i) \<and> flt (x ! i) xmax \<and> flt ymin (y ! i) \<and> flt (y ! i) ymax))"
  using assms by (simp add: region_mask_eq)

theorem region_mask_strictly_inside_witness:
  "region_mask (Fin 1015000, Fin 1060000) (Fin (- 420000), Fin (- 385000))
     [Fin 1015000, Fin 1020000] [Fin (- 400000), Fin (- 400000)] = Inr [False, True]"
proof -
  have len: "length [Fin 1015000, Fin 1020000] = length [Fin (- 400000), Fin (- 400000)]"
    by simp
  from region_mask_strictly_inside
         [OF len, of "Fin 1015000" "Fin 1060000" "Fin (- 420000)" "Fin (- 385000)"]
  obtain ind where
    r: "region_mask (Fin 1015000, Fin 1060000) (Fin (- 420000), Fin (- 385000))
          [Fin 1015000, Fin 1020000] [Fin (- 400000), Fin (- 400000)] = Inr ind"
    and l: "length ind = 2"
    and p: "\<forall>i<2. ind ! i =
              (flt (Fin 1015000) ([Fin 1015000, Fin 1020000] ! i) \<and>
               flt ([Fin 1015000, Fin 1020000] ! i) (Fin 1060000) \<and>
               flt (Fin (- 420000)) ([Fin (- 400000), Fin (- 400000)] ! i) \<and>
               flt ([Fin (- 400000), Fin (- 400000)] ! i) (Fin (- 385000)))"
    by auto
  from p have "ind ! 0 = False" "ind ! 1 = True"
    by simp_all
  with l have "ind = [False, True]"
    by (simp add: list_eq_iff_nth_eq less_Suc_eq numeral_2_eq_2)
  with r show ?thesis by simp
qed

text \<open>
  Claim C7. A degenerate or inverted rectangle (\<open>xmin >= xmax\<close> or \<open>ymin >= ymax\<close>, as
  the comparison \<^verbatim>\<open>>=\<close> of the floats decides it) selects nothing: for coordinate
  arrays of equal length the mask is computed without error and is false everywhere.
\<close>

theorem degenerate_region_selects_nothing:
  assumes "length x = length y" and "fge xmin xmax \<or> fge ymin ymax"
  shows "region_mask (xmin, xmax) (ymin, ymax) x y = Inr (replicate (length x) False)"
proof -
  have "\<not> (flt xmin u \<and> flt u xmax \<and> flt ymin v \<and> flt v ymax)" for u v
    using assms(2) flt_trans flt_fge_absurd by blast
  then show ?thesis
    using assms(1) by (simp add: region_mask_eq list_eq_iff_nth_eq)
qed

theorem degenerate_region_selects_nothing_witness:
  "region_mask (Fin 1060000, Fin 1015000) (Fin (- 420000), Fin (- 385000))
     [Fin 1020000, Fin 1015000, NaN] [Fin (- 400000), Fin (- 400000), PosInf]
   = Inr [False, False, False]"
proof -
  have len: "length [Fin 1020000, Fin 1015000, NaN] = length [Fin (- 400000), Fin (- 400000), PosInf]"
    by simp
  have inv: "fge (Fin 1060000) (Fin 1015000) \<or> fge (Fin (- 420000)) (Fin (- 385000))"
    by (simp add: fge_def fgt_def)
  show ?thesis
    using degenerate_region_selects_nothing [OF len inv]
    by (simp add: numeral_3_eq_3)
qed

section \<open>Claims about the fill values\<close>



text \<open>
  Claim C5. Sanitizing is idempotent: a second pass with the same fill value changes
  nothing. (An element the first pass set to NaN does not compare equal to anything.)
\<close>

theorem sanitize_idempotent: "sanitize fill (sanitize fill temp) = sanitize fill temp"
  by (simp add: sanitize_eq feq_def)

section \<open>Claims about the file names\<close>

text \<open>
  Claim C2, as amended. A name that starts with a product's pattern is parsed into the
  substrings the pattern captures, and into those only: for ATL11
  (\<^verbatim>\<open>ATL11_ttttrr_\<close>...) group 1 is the track \<open>tttt\<close> and group 2 the subregion
  \<open>rr\<close>; for ATL06 (\<^verbatim>\<open>ATL06_\<close>, a run of digits, \<^verbatim>\<open>_ttttccrr_\<close>...) the groups
  are the track, the cycle \<open>cc\<close> and the subregion. The match ends at the underscore after
  them: the cycle range, the release and the version of an ATL11 name are not read.
\<close>

theorem filename_parse_recovers_captured_fields:
  assumes "ds \<noteq> []" and "length t = 4" and "length c = 2" and "length r = 2"
    and "\<forall>ch \<in> set (ds @ t @ c @ r). is_digit ch"
  shows "re_search ATL11_re (''ATL11_'' @ t @ r @ ''_'' @ rest) =
           Some \<lparr>whole = ''ATL11_'' @ t @ r @ ''_'', groups = [t, r], cur = None\<rparr> \<and>
         search_group ATL11_re (''ATL11_'' @ t @ r @ ''_'' @ rest) 1 = Inr t \<and>
         search_group ATL11_re (''ATL11_'' @ t @ r @ ''_'' @ rest) 2 = Inr r \<and>
         re_search ATL06_re (''ATL06_'' @ ds @ ''_'' @ t @ c @ r @ ''_'' @ rest') =
           Some \<lparr>whole = ''ATL06_'' @ ds @ ''_'' @ t @ c @ r @ ''_'', groups = [t, c, r], cur = None\<rparr> \<and>
         search_group ATL06_re (''ATL06_'' @ ds @ ''_'' @ t @ c @ r @ ''_'' @ rest') 1 = Inr t \<and>
         search_group ATL06_re (''ATL06_'' @ ds @ ''_'' @ t @ c @ r @ ''_'' @ rest') 2 = Inr c \<and>
         search_group ATL06_re (''ATL06_'' @ ds @ ''_'' @ t @ c @ r @ ''_'' @ rest') 3 = Inr r"
proof -
  from assms(5) have d11: "\<forall>ch \<in> set (t @ r). is_digit ch" by auto
  note a = ATL11_search_wellformed [OF assms(2) assms(4) d11, of rest]
  note b = ATL06_search_wellformed [OF assms(1-5), of rest']
  show ?thesis
    unfolding search_group_def a b by (simp add: group_def)
qed

theorem filename_parse_recovers_captured_fields_witness:
  "search_group ATL11_re ''ATL11_054803_0311_004_01.h5'' 1 = Inr ''0548'' \<and>
   search_group ATL11_re ''ATL11_054803_0311_004_01.h5'' 2 = Inr ''03'' \<and>
   search_group ATL06_re ''ATL06_20190430122344_05480203_004_01.h5'' 1 = Inr ''0548'' \<and>
   search_group ATL06_re ''ATL06_20190430122344_05480203_004_01.h5'' 2 = Inr ''02'' \<and>
   search_group ATL06_re ''ATL06_20190430122344_05480203_004_01.h5'' 3 = Inr ''03''"
proof -
  have d: "\<forall>ch \<in> set (''20190430122344'' @ ''0548'' @ ''02'' @ ''03''). is_digit ch"
    by (simp add: is_digit_def)
  have n: "''20190430122344'' \<noteq> []" "length ''0548'' = 4" "length ''02'' = 2" "length ''03'' = 2"
    by simp_all
  from filename_parse_recovers_captured_fields
         [OF n d, of "''0311_004_01.h5''" "''004_01.h5''"]
  show ?thesis by simp
qed

text \<open>
  The claim as it was stated fails on the notebook's own example: the match of
  \<^verbatim>\<open>ATL11_054803_0311_004_01.h5\<close> is \<^verbatim>\<open>ATL11_054803_\<close> with the two groups
  \<^verbatim>\<open>0548\<close> and \<^verbatim>\<open>03\<close>, and there is no third group to hold a cycle range, a
  release or a version.
\<close>

theorem filename_parse_counterexample:
  "re_search ATL11_re ''ATL11_054803_0311_004_01.h5'' =
     Some \<lparr>whole = ''ATL11_054803_'', groups = [''0548'', ''03''], cur = None\<rparr> \<and>
   search_group ATL11_re ''ATL11_054803_0311_004_01.h5'' 3 = Inl IndexError"
  by (simp add: ATL11_run_simps)

text \<open>
  Claim C3, as amended. For a name in which neither pattern is found,
  \<^verbatim>\<open>search\<close> returns None and \<^verbatim>\<open>.group\<close> raises AttributeError, whatever group is
  asked for: no identifier comes back. The loops do not skip such an entry. When the
  entries before it ran through, the ATL11 loop stops at it with that error, unless its
  file is already in \<^verbatim>\<open>/tmp\<close> (then the entry is passed over before its name is
  parsed) and the ATL06 loop stops at it in every case; what was fetched before stays, the
  entries after it are not looked at.
\<close>

theorem unmatched_name_stops_the_loop:
  assumes "re_search ATL11_re (producer_granule_id g) = None"
    and "re_search ATL06_re (producer_granule_id g) = None"
  shows "search_group ATL11_re (producer_granule_id g) k = Inl AttributeError \<and>
         search_group ATL06_re (producer_granule_id g) k = Inl AttributeError \<and>
         (raised (ATL11_download wget tmp pre) = None \<longrightarrow>
            ATL11_download wget tmp (pre @ g # post) =
              (if producer_granule_id g \<in> files (ATL11_download wget tmp pre)
               then ATL11_download wget tmp (pre @ post)
               else (ATL11_download wget tmp pre)\<lparr>raised := Some AttributeError\<rparr>)) \<and>
         (raised (ATL06_download wget tmp pre) = None \<longrightarrow>
            ATL06_download wget tmp (pre @ g # post) =
              (ATL06_download wget tmp pre)\<lparr>raised := Some AttributeError\<rparr>)"
proof -
  have s11: "search_group ATL11_re (producer_granule_id g) k = Inl AttributeError" for k
    using assms(1) by (simp add: search_group_def)
  have s06: "search_group ATL06_re (producer_granule_id g) k = Inl AttributeError" for k
    using assms(2) by (simp add: search_group_def)
  have b11: "ATL11_body wget t g =
      (if producer_granule_id g \<in> t then Inr (t, []) else Inl AttributeError)" for t
    by (simp add: ATL11_body_def s11)
  have b06: "ATL06_body wget t g = Inl AttributeError" for t
    by (simp add: ATL06_body_def s06)
  show ?thesis
    by (simp add: s11 s06 ATL11_download_append ATL06_download_append b11 b06 Let_def)
qed

theorem unmatched_name_stops_the_loop_witness:
  "search_group ATL11_re (producer_granule_id exbad) 2 = Inl AttributeError \<and>
   ATL11_download wget_ok {} ([ex03] @ exbad # [ex04, ex03]) =
     \<lparr>files = {''ATL11_054803_0311_004_01.h5''}, fetched = [ex03], raised = Some AttributeError\<rparr> \<and>
   ATL11_download wget_ok {''ATL11_0548_0311_004_01.h5''} ([ex03] @ exbad # [ex04]) =
     \<lparr>files = {''ATL11_054803_0311_004_01.h5'', ''ATL11_0548_0311_004_01.h5''}, fetched = [ex03], raised = None\<rparr> \<and>
   ATL06_download wget_ok {''ATL11_0548_0311_004_01.h5''} ([] @ exbad # [ex04]) =
     \<lparr>files = {''ATL11_0548_0311_004_01.h5''}, fetched = [], raised = Some AttributeError\<rparr>"
proof -
  have n11: "re_search ATL11_re (producer_granule_id exbad) = None"
    by (simp add: ATL11_run_simps ATL06_body_def ATL06_re_def)
  have n06: "re_search ATL06_re (producer_granule_id exbad) = None"
    by (simp add: ATL11_run_simps ATL06_body_def ATL06_re_def)
  note t = unmatched_name_stops_the_loop [OF n11 n06]
  have p1: "ATL11_download wget_ok {} [ex03] =
      \<lparr>files = {''ATL11_054803_0311_004_01.h5''}, fetched = [ex03], raised = None\<rparr>"
    by (simp add: ATL11_run_simps ATL06_body_def ATL06_re_def)
  have p2: "ATL11_download wget_ok {''ATL11_0548_0311_004_01.h5''} [ex03] =
      \<lparr>files = {''ATL11_054803_0311_004_01.h5'', ''ATL11_0548_0311_004_01.h5''}, fetched = [ex03], raised = None\<rparr>"
    by (simp add: ATL11_run_simps ATL06_body_def ATL06_re_def)
  have p3: "ATL11_download wget_ok {''ATL11_0548_0311_004_01.h5''} ([ex03] @ [ex04]) =
      \<lparr>files = {''ATL11_054803_0311_004_01.h5'', ''ATL11_0548_0311_004_01.h5''}, fetched = [ex03], raised = None\<rparr>"
    by (simp add: ATL11_run_simps ATL06_body_def ATL06_re_def)
  have a: "search_group ATL11_re (producer_granule_id exbad) 2 = Inl AttributeError"
    using t [of 2] by simp
  have b: "ATL11_download wget_ok {} ([ex03] @ exbad # [ex04, ex03]) =
     \<lparr>files = {''ATL11_054803_0311_004_01.h5''}, fetched = [ex03], raised = Some AttributeError\<rparr>"
    using t [of 2 wget_ok "{}" "[ex03]" "[ex04, ex03]"] p1 by (simp del: ATL11_download.simps)
  have c: "ATL11_download wget_ok {''ATL11_0548_0311_004_01.h5''} ([ex03] @ exbad # [ex04]) =
     \<lparr>files = {''ATL11_054803_0311_004_01.h5'', ''ATL11_0548_0311_004_01.h5''}, fetched = [ex03], raised = None\<rparr>"
    using t [of 2 wget_ok "{''ATL11_0548_0311_004_01.h5''}" "[ex03]" "[ex04]"] p2 p3 by (simp del: ATL11_download.simps)
  have d: "ATL06_download wget_ok {''ATL11_0548_0311_004_01.h5''} ([] @ exbad # [ex04]) =
     \<lparr>files = {''ATL11_0548_0311_004_01.h5''}, fetched = [], raised = Some AttributeError\<rparr>"
    using t [of 2 wget_ok "{''ATL11_0548_0311_004_01.h5''}" "[]" "[ex04]"] by simp
  from a b c d show ?thesis by blast
qed

text \<open>
  The claim as it was stated fails: with a malformed name first, the ATL11 loop ends with
  AttributeError and the well-formed subregion-03 granule after it is never fetched.
\<close>

theorem unmatched_name_counterexample:
  "ATL11_download wget_ok {} [exbad, ex03] = \<lparr>files = {}, fetched = [], raised = Some AttributeError\<rparr>"
  by (simp add: ATL11_run_simps)

section \<open>Claims about the download loop\<close>

text \<open>
  Claim C6, as amended. The granules the ATL11 loop fetches are a subsequence of its
  input, in the input's order, and running the loop on that subsequence, from the same
  files in \<^verbatim>\<open>/tmp\<close> as the first run started from, fetches exactly that subsequence
  again, without an exception. When every name of the input has the ATL11 pattern, the
  first run raises nothing either. (The target subregion is the literal \<^verbatim>\<open>'03'\<close> of
  the loop.)
\<close>

theorem ATL11_subregion_filter_idempotent:
  "subseq (fetched (ATL11_download wget tmp gs)) gs \<and>
   fetched (ATL11_download wget tmp (fetched (ATL11_download wget tmp gs))) =
     fetched (ATL11_download wget tmp gs) \<and>
   raised (ATL11_download wget tmp (fetched (ATL11_download wget tmp gs))) = None \<and>
   ((\<forall>g \<in> set gs. re_search ATL11_re (producer_granule_id g) \<noteq> None) \<longrightarrow>
      raised (ATL11_download wget tmp gs) = None)"
  by (simp add: ATL11_download_subseq ATL11_download_idem ATL11_download_no_raise)

theorem ATL11_subregion_filter_idempotent_witness:
  "fetched (ATL11_download wget_ok {} [ex04, ex03, ex04b, ex03]) = [ex03] \<and>
   subseq [ex03] [ex04, ex03, ex04b, ex03] \<and>
   fetched (ATL11_download wget_ok {} [ex03]) = [ex03] \<and>
   raised (ATL11_download wget_ok {} [ex04, ex03, ex04b, ex03]) = None"
proof -
  let ?gs = "[ex04, ex03, ex04b, ex03]"
  have f: "fetched (ATL11_download wget_ok {} ?gs) = [ex03]"
    by (simp add: ATL11_run_simps)
  have m: "\<forall>g \<in> set ?gs. re_search ATL11_re (producer_granule_id g) \<noteq> None"
    by (simp add: ATL11_run_simps)
  from ATL11_subregion_filter_idempotent [of wget_ok "{}" ?gs] m f show ?thesis
    by (simp del: ATL11_download.simps)
qed

text \<open>
  The claim as it was stated, for every run of the filter, fails: the loop passes over
  a granule whose file is in \<^verbatim>\<open>/tmp\<close>, and its own downloads put the files there.
  Run again on what it fetched, from the files the first run left, it fetches nothing.
\<close>

theorem ATL11_rerun_after_download_counterexample:
  "fetched (ATL11_download wget_ok {} [ex03]) = [ex03] \<and>
   files (ATL11_download wget_ok {} [ex03]) = {''ATL11_054803_0311_004_01.h5''} \<and>
   fetched (ATL11_download wget_ok (files (ATL11_download wget_ok {} [ex03]))
              (fetched (ATL11_download wget_ok {} [ex03]))) = []"
  by (simp add: ATL11_run_simps)

text \<open>
  Claim C10. In the ATL11 loop the existence check comes first: for a granule whose file
  is in \<^verbatim>\<open>/tmp\<close> the body ends there, with nothing parsed, fetched or raised, whatever
  its name is. No file leaves \<^verbatim>\<open>/tmp\<close>, so a file that was there and matches
  \<^verbatim>\<open>ATL11*.h5\<close> is among the files the reading stage globs, whatever its subregion;
  and every granule the loop fetches was absent and is of subregion 03.
\<close>

theorem ATL11_existing_file_skips_subregion_check:
  "(producer_granule_id g \<in> tmp \<longrightarrow> ATL11_body wget tmp g = Inr (tmp, [])) \<and>
   tmp \<subseteq> files (ATL11_download wget tmp gs) \<and>
   (\<forall>n \<in> tmp. prefix ''ATL11'' n \<and> suffix ''.h5'' (drop 5 n) \<longrightarrow>
      ''/tmp/'' @ n \<in> glob_ATL11 (files (ATL11_download wget tmp gs))) \<and>
   (\<forall>f \<in> set (fetched (ATL11_download wget tmp gs)).
      producer_granule_id f \<notin> tmp \<and>
      search_group ATL11_re (producer_granule_id f) 2 = Inr ''03'')"
proof (intro conjI)
  show "producer_granule_id g \<in> tmp \<longrightarrow> ATL11_body wget tmp g = Inr (tmp, [])"
    by (simp add: ATL11_body_def)
  show "tmp \<subseteq> files (ATL11_download wget tmp gs)"
    by (rule ATL11_download_files_mono)
  show "\<forall>n \<in> tmp. prefix ''ATL11'' n \<and> suffix ''.h5'' (drop 5 n) \<longrightarrow>
      ''/tmp/'' @ n \<in> glob_ATL11 (files (ATL11_download wget tmp gs))"
    using ATL11_download_files_mono [of tmp wget gs] by (auto simp: glob_ATL11_def)
  show "\<forall>f \<in> set (fetched (ATL11_download wget tmp gs)).
      producer_granule_id f \<notin> tmp \<and>
      search_group ATL11_re (producer_granule_id f) 2 = Inr ''03''"
    using ATL11_fetched_absent_03 by blast
qed

theorem ATL11_existing_file_skips_subregion_check_witness:
  "ATL11_body wget_ok {''ATL11_054804_0311_004_01.h5''} ex04 = Inr ({''ATL11_054804_0311_004_01.h5''}, []) \<and>
   ''/tmp/ATL11_054804_0311_004_01.h5'' \<in>
      glob_ATL11 (files (ATL11_download wget_ok {''ATL11_054804_0311_004_01.h5''} [ex04, ex03, ex04b])) \<and>
   fetched (ATL11_download wget_ok {''ATL11_054804_0311_004_01.h5''} [ex04, ex03, ex04b]) = [ex03] \<and>
   search_group ATL11_re (producer_granule_id ex03) 2 = Inr ''03''"
proof -
  let ?tmp = "{''ATL11_054804_0311_004_01.h5''}"
  let ?gs = "[ex04, ex03, ex04b]"
  note t = ATL11_existing_file_skips_subregion_check [of ex04 ?tmp wget_ok ?gs]
  have f: "fetched (ATL11_download wget_ok ?tmp ?gs) = [ex03]"
    by (simp add: ATL11_run_simps)
  have a: "ATL11_body wget_ok ?tmp ex04 = Inr (?tmp, [])"
    using t by (simp del: ATL11_download.simps)
  have "prefix ''ATL11'' ''ATL11_054804_0311_004_01.h5'' \<and>
        suffix ''.h5'' (drop 5 ''ATL11_054804_0311_004_01.h5'')"
    by (simp add: suffix_def)
  with t have b: "''/tmp/'' @ ''ATL11_054804_0311_004_01.h5'' \<in> glob_ATL11 (files (ATL11_download wget_ok ?tmp ?gs))"
    by blast
  from t f have c: "search_group ATL11_re (producer_granule_id ex03) 2 = Inr ''03''"
    by (simp del: ATL11_download.simps)
  from a b c f show ?thesis by (simp del: ATL11_download.simps)
qed

section \<open>Claims about reading the files\<close>



text \<open>
  Claim C9, as amended. When a file of the ATL11 reading loop has no
  \<^verbatim>\<open>pt2/latitude\<close> but has \<^verbatim>\<open>pt2/h_corr\<close> with its fill value and
  \<^verbatim>\<open>pt2/delta_time\<close>, the failed read is ignored and the file's record is made from
  the \<^verbatim>\<open>lat\<close> and \<^verbatim>\<open>lon\<close> that are left in the notebook, provided they are bound
  and the transform accepts them; nothing is raised. Read right after a complete file, its
  \<open>x\<close> and \<open>y\<close> are those of that file.
\<close>

theorem ATL11_missing_position_reuses_previous:
  assumes "h5get h5f ''pt2'' ''latitude'' = Inl e"
    and "h5get h5f ''pt2'' ''h_corr'' = Inr hc" and "attrs hc ''_FillValue'' = Some fv"
    and "h5get h5f ''pt2'' ''delta_time'' = Inr dt"
    and "h5get h5p ''pt2'' ''latitude'' = Inr pla" and "h5get h5p ''pt2'' ''longitude'' = Inr plo"
    and "h5get h5p ''pt2'' ''h_corr'' = Inr phc" and "attrs phc ''_FillValue'' = Some pfv"
    and "h5get h5p ''pt2'' ''delta_time'' = Inr pdt"
    and "tr (data pla) (data plo) = Inr (xs, ys)"
  shows "(lat st = Some la \<and> lon st = Some lo \<and> tr la lo = Inr (xs', ys') \<longrightarrow>
            ATL11_read_file tr st file h5f =
              (st\<lparr>file_xyth := (file_xyth st)(file \<mapsto>
                    \<lparr>xyth_x = xs', xyth_y = ys', xyth_h = sanitize fv (data hc), xyth_t = data dt\<rparr>)\<rparr>,
               None)) \<and>
         ATL11_read tr st [(prev, h5p), (file, h5f)] =
           (st\<lparr>lat := Some (data pla), lon := Some (data plo),
               file_xyth := (file_xyth st)
                 (prev \<mapsto> \<lparr>xyth_x = xs, xyth_y = ys, xyth_h = sanitize pfv (data phc), xyth_t = data pdt\<rparr>,
                  file \<mapsto> \<lparr>xyth_x = xs, xyth_y = ys, xyth_h = sanitize fv (data hc), xyth_t = data dt\<rparr>)\<rparr>,
            None)"
proof -
  note c = ATL11_read_file_complete [where tr = tr, OF assms(5-10), of st prev]
  let ?st1 = "st\<lparr>lat := Some (data pla), lon := Some (data plo),
               file_xyth := (file_xyth st)(prev \<mapsto>
                 \<lparr>xyth_x = xs, xyth_y = ys, xyth_h = sanitize pfv (data phc), xyth_t = data pdt\<rparr>)\<rparr>"
  have l: "lat ?st1 = Some (data pla)" "lon ?st1 = Some (data plo)"
    by simp_all
  note s = ATL11_read_file_stale [where tr = tr, OF assms(1-4) l assms(10), of "file"]
  have two: "ATL11_read tr st [(prev, h5p), (file, h5f)] =
           (st\<lparr>lat := Some (data pla), lon := Some (data plo),
               file_xyth := (file_xyth st)
                 (prev \<mapsto> \<lparr>xyth_x = xs, xyth_y = ys, xyth_h = sanitize pfv (data phc), xyth_t = data pdt\<rparr>,
                  file \<mapsto> \<lparr>xyth_x = xs, xyth_y = ys, xyth_h = sanitize fv (data hc), xyth_t = data dt\<rparr>)\<rparr>,
            None)"
    by (simp add: c s)
  show ?thesis
    using two ATL11_read_file_stale [OF assms(1-4), of st la lo tr xs' ys' "file"] by blast
qed

theorem ATL11_missing_position_reuses_previous_witness:
  "snd (ATL11_read tr_stub st_fresh
          [(''/tmp/ATL11_054803_0311_004_01.h5'', ex_ATL11),
           (''/tmp/ATL11_062403_0311_004_01.h5'', ex_ATL11_nopos)]) = None \<and>
   file_xyth (fst (ATL11_read tr_stub st_fresh
          [(''/tmp/ATL11_054803_0311_004_01.h5'', ex_ATL11),
           (''/tmp/ATL11_062403_0311_004_01.h5'', ex_ATL11_nopos)]))
     ''/tmp/ATL11_062403_0311_004_01.h5'' =
     Some \<lparr>xyth_x = [Fin (- 48), Fin (- 47)], xyth_y = [Fin 79, Fin 80],
           xyth_h = [NaN, Fin 1300, Fin 1310], xyth_t = [Fin 300, Fin 400, Fin 500]\<rparr> \<and>
   ATL11_read_file tr_stub \<lparr>lat = Some [Fin 70], lon = Some [Fin 10], file_xyth = Map.empty\<rparr>
       ''/tmp/ATL11_062403_0311_004_01.h5'' ex_ATL11_nopos =
     (\<lparr>lat = Some [Fin 70], lon = Some [Fin 10],
       file_xyth = [''/tmp/ATL11_062403_0311_004_01.h5'' \<mapsto>
          \<lparr>xyth_x = [Fin 10], xyth_y = [Fin 70],
           xyth_h = [NaN, Fin 1300, Fin 1310], xyth_t = [Fin 300, Fin 400, Fin 500]\<rparr>]\<rparr>, None)"
proof -
  let ?hc = "\<lparr>data = [fill32, Fin 1300, Fin 1310], attrs = [''_FillValue'' \<mapsto> fill32]\<rparr>"
  let ?dt = "\<lparr>data = [Fin 300, Fin 400, Fin 500], attrs = Map.empty :: string \<rightharpoonup> f64\<rparr>"
  let ?pla = "\<lparr>data = [Fin 79, Fin 80], attrs = Map.empty :: string \<rightharpoonup> f64\<rparr>"
  let ?plo = "\<lparr>data = [Fin (- 48), Fin (- 47)], attrs = Map.empty :: string \<rightharpoonup> f64\<rparr>"
  let ?phc = "\<lparr>data = [Fin 1200, fill32], attrs = [''_FillValue'' \<mapsto> fill32]\<rparr>"
  let ?pdt = "\<lparr>data = [Fin 100, Fin 200], attrs = Map.empty :: string \<rightharpoonup> f64\<rparr>"
  have h1: "h5get ex_ATL11_nopos ''pt2'' ''latitude'' = Inl KeyError"
    by (simp add: h5get_def)
  have h2: "h5get ex_ATL11_nopos ''pt2'' ''h_corr'' = Inr ?hc"
    by (simp add: h5get_def)
  have h3: "attrs ?hc ''_FillValue'' = Some fill32"
    by simp
  have h4: "h5get ex_ATL11_nopos ''pt2'' ''delta_time'' = Inr ?dt"
    by (simp add: h5get_def)
  have p1: "h5get ex_ATL11 ''pt2'' ''latitude'' = Inr ?pla"
    by (simp add: h5get_def)
  have p2: "h5get ex_ATL11 ''pt2'' ''longitude'' = Inr ?plo"
    by (simp add: h5get_def)
  have p3: "h5get ex_ATL11 ''pt2'' ''h_corr'' = Inr ?phc"
    by (simp add: h5get_def)
  have p4: "attrs ?phc ''_FillValue'' = Some fill32"
    by simp
  have p5: "h5get ex_ATL11 ''pt2'' ''delta_time'' = Inr ?pdt"
    by (simp add: h5get_def)
  have p6: "tr_stub (data ?pla) (data ?plo) = Inr ([Fin (- 48), Fin (- 47)], [Fin 79, Fin 80])"
    by (simp add: tr_stub_def)
  note t = ATL11_missing_position_reuses_previous
             [where tr = tr_stub, OF h1 h2 h3 h4 p1 p2 p3 p4 p5 p6]
  note a = t [of st_fresh "[]" "[]" "[]" "[]" "''/tmp/ATL11_062403_0311_004_01.h5''"
                "''/tmp/ATL11_054803_0311_004_01.h5''", THEN conjunct2]
  note b = t [of "\<lparr>lat = Some [Fin 70], lon = Some [Fin 10], file_xyth = Map.empty\<rparr>"
                "[Fin 70]" "[Fin 10]" "[Fin 10]" "[Fin 70]" "''/tmp/ATL11_062403_0311_004_01.h5''"
                "''/tmp/ATL11_054803_0311_004_01.h5''", THEN conjunct1]
  have x: "snd (ATL11_read tr_stub st_fresh
          [(''/tmp/ATL11_054803_0311_004_01.h5'', ex_ATL11),
           (''/tmp/ATL11_062403_0311_004_01.h5'', ex_ATL11_nopos)]) = None"
    unfolding a by simp
  have y: "file_xyth (fst (ATL11_read tr_stub st_fresh
          [(''/tmp/ATL11_054803_0311_004_01.h5'', ex_ATL11),
           (''/tmp/ATL11_062403_0311_004_01.h5'', ex_ATL11_nopos)]))
     ''/tmp/ATL11_062403_0311_004_01.h5'' =
     Some \<lparr>xyth_x = [Fin (- 48), Fin (- 47)], xyth_y = [Fin 79, Fin 80],
           xyth_h = [NaN, Fin 1300, Fin 1310], xyth_t = [Fin 300, Fin 400, Fin 500]\<rparr>"
    unfolding a by (simp add: sanitize_eq feq_def)
  have z: "ATL11_read_file tr_stub \<lparr>lat = Some [Fin 70], lon = Some [Fin 10], file_xyth = Map.empty\<rparr>
       ''/tmp/ATL11_062403_0311_004_01.h5'' ex_ATL11_nopos =
     (\<lparr>lat = Some [Fin 70], lon = Some [Fin 10],
       file_xyth = [''/tmp/ATL11_062403_0311_004_01.h5'' \<mapsto>
          \<lparr>xyth_x = [Fin 10], xyth_y = [Fin 70],
           xyth_h = [NaN, Fin 1300, Fin 1310], xyth_t = [Fin 300, Fin 400, Fin 500]\<rparr>]\<rparr>, None)"
    using b by (simp add: tr_stub_def sanitize_eq feq_def)
  from x y z show ?thesis by blast
qed

text \<open>
  The claim as it was stated fails for a file without the \<^verbatim>\<open>pt2\<close> group: the read of
  \<^verbatim>\<open>h_corr\<close> is outside the \<^verbatim>\<open>try\<close>, the loop ends with KeyError and the file
  gets no record.
\<close>

theorem ATL11_missing_group_counterexample:
  "snd (ATL11_read tr_stub st_fresh [(''/tmp/ATL11_054803_0311_004_01.h5'', ex_ATL11),
                                     (''/tmp/ATL11_062403_0311_004_01.h5'', Map.empty)]) = Some KeyError \<and>
   file_xyth (fst (ATL11_read tr_stub st_fresh [(''/tmp/ATL11_054803_0311_004_01.h5'', ex_ATL11),
                                     (''/tmp/ATL11_062403_0311_004_01.h5'', Map.empty)]))
     ''/tmp/ATL11_062403_0311_004_01.h5'' = None"
  by (simp add: ATL11_read_file_def read_latlon_def h5get_def tr_stub_def Let_def)

end
